theory Spec2Isabelle
  imports Complex_Main "HOL-Library.AList" "HOL-Library.Multiset"
begin

section \<open>Data model of the Python wrapper (axicontraves/__init__.py)\<close>

text \<open>
  Python integers are unbounded and are modelled by \<open>int\<close>; Python floats (wall-clock
  readings and the derived rates) are modelled by \<open>real\<close>, so rounding is not part of the
  model. A \<open>Dict[str, Any]\<close> of provider options is an association list.
\<close>

datatype cfg_value = CStr string | CInt int | CFloat real | CBool bool

type_synonym config = "(string \<times> cfg_value) list"

type_synonym Message = "(string \<times> string) list"

type_synonym request = "Message list"

record ProviderConfig =
  name :: string
  api_key :: string
  config :: config
  base_url :: "string option"
  tokens_per_minute :: "int option"
  test_mode :: bool

text \<open>
  Modelled from the spec: the class \<open>RequestMetrics\<close> of the native extension module
  (\<open>from .axicontraves import process_requests_multi, RequestMetrics\<close>), which is not among
  the sources (3: provider key, prompt and completion token counts, request and response
  byte sizes, duration). The wrapper and the tests read the attributes \<open>provider_name\<close>,
  \<open>prompt_tokens\<close>, \<open>completion_tokens\<close>, \<open>total_tokens\<close>, \<open>request_bytes\<close>,
  \<open>response_bytes\<close> and \<open>request_time\<close>; on the Python side the counts are plain
  integers. The token attributes carry the prefix \<open>rm_\<close> here because
  \<open>BatchRequestResult\<close> has fields of the same names.
\<close>

record RequestMetrics =
  provider_name :: string
  rm_prompt_tokens :: int
  rm_completion_tokens :: int
  rm_total_tokens :: int
  request_bytes :: int
  response_bytes :: int
  request_time :: real

text \<open>
  The dataclass \<open>BatchRequestResult\<close> refers to itself in \<open>provider_metrics\<close>, so it is
  a datatype with selectors. The dictionary is an association list in insertion order with
  distinct keys, as a Python \<open>dict\<close> is.
\<close>

datatype BatchRequestResult = BatchRequestResult
  (total_requests: int)
  (total_tokens: int)
  (prompt_tokens: int)
  (completion_tokens: int)
  (total_time: real)
  (metrics: "RequestMetrics list")
  (total_request_bytes: int)
  (total_response_bytes: int)
  (provider_metrics: "(string \<times> BatchRequestResult) list")

datatype error =
    IndexError
  | ZeroDivisionError
  | ConfigurationError
  | EngineError string

subsection \<open>Derived rates (the properties of \<open>BatchRequestResult\<close>)\<close>

text \<open>Python's \<open>/\<close> raises \<open>ZeroDivisionError\<close> on a zero divisor.\<close>

definition truediv :: "real \<Rightarrow> real \<Rightarrow> error + real" where
  "truediv a b = (if b = 0 then Inl ZeroDivisionError else Inr (a / b))"

definition requests_per_second :: "BatchRequestResult \<Rightarrow> error + real" where
  "requests_per_second self =
     (if total_time self > 0
      then truediv (real_of_int (total_requests self)) (total_time self)
      else Inr 0)"

definition tokens_per_second :: "BatchRequestResult \<Rightarrow> error + real" where
  "tokens_per_second self =
     (if total_time self > 0
      then truediv (real_of_int (total_tokens self)) (total_time self)
      else Inr 0)"

definition prompt_tokens_per_second :: "BatchRequestResult \<Rightarrow> error + real" where
  "prompt_tokens_per_second self =
     (if total_time self > 0
      then truediv (real_of_int (prompt_tokens self)) (total_time self)
      else Inr 0)"

definition completion_tokens_per_second :: "BatchRequestResult \<Rightarrow> error + real" where
  "completion_tokens_per_second self =
     (if total_time self > 0
      then truediv (real_of_int (completion_tokens self)) (total_time self)
      else Inr 0)"

definition uplink_mbps :: "BatchRequestResult \<Rightarrow> error + real" where
  "uplink_mbps self =
     (if total_time self > 0
      then truediv (real_of_int (total_request_bytes self * 8)) (total_time self * 1000000)
      else Inr 0)"

definition downlink_mbps :: "BatchRequestResult \<Rightarrow> error + real" where
  "downlink_mbps self =
     (if total_time self > 0
      then truediv (real_of_int (total_response_bytes self * 8)) (total_time self * 1000000)
      else Inr 0)"

subsection \<open>The constructor of \<open>BatchProcessor\<close>\<close>

text \<open>
  \<open>providers: Union[ProviderConfig, List[ProviderConfig]]\<close> is a tagged union. The
  optional progress callback is an arbitrary Python callable that receives
  \<open>(completed, total)\<close>; it and the console rendering are sinks outside the returned
  value and are not modelled.
\<close>

datatype providers_arg = Single ProviderConfig | Several "ProviderConfig list"

record BatchProcessor =
  providers :: "ProviderConfig list"

definition BatchProcessor_init :: "providers_arg \<Rightarrow> BatchProcessor" where
  "BatchProcessor_init arg =
     \<lparr>providers = (case arg of Single p \<Rightarrow> [p] | Several ps \<Rightarrow> ps)\<rparr>"

subsection \<open>The running totals kept by \<open>update_progress\<close>\<close>

text \<open>
  The five \<open>nonlocal\<close> variables of \<open>process_batch\<close> are a record that
  \<open>update_progress\<close> transforms; the arguments of one call of the callback are a record
  too. The rates that \<open>update_progress\<close> computes go to the progress bar only.
\<close>

record counters =
  c_total_tokens :: int
  c_prompt_tokens :: int
  c_completion_tokens :: int
  c_total_request_bytes :: int
  c_total_response_bytes :: int

record progress_call =
  pc_completed :: int
  pc_total :: int
  new_prompt_tokens :: int
  new_completion_tokens :: int
  new_request_bytes :: int
  new_response_bytes :: int
  thread_count :: int

definition init_counters :: counters where
  "init_counters =
     \<lparr>c_total_tokens = 0, c_prompt_tokens = 0, c_completion_tokens = 0,
      c_total_request_bytes = 0, c_total_response_bytes = 0\<rparr>"

definition update_progress :: "progress_call \<Rightarrow> counters \<Rightarrow> counters" where
  "update_progress a c =
     (let prompt = c_prompt_tokens c + new_prompt_tokens a;
          completion = c_completion_tokens c + new_completion_tokens a
      in \<lparr>c_total_tokens = prompt + completion,
          c_prompt_tokens = prompt,
          c_completion_tokens = completion,
          c_total_request_bytes = c_total_request_bytes c + new_request_bytes a,
          c_total_response_bytes = c_total_response_bytes c + new_response_bytes a\<rparr>)"

subsection \<open>\<open>process_batch\<close>\<close>

text \<open>
  The native engine is a parameter of the model: one call of it either raises or
  yields the calls it made to \<open>update_progress\<close>, in order, and the list of metrics it
  returned. The wrapper hands it tuples \<open>(name, api_key, base_url, config)\<close>, the
  requests, the first provider's test mode and the first provider's rate limit.
\<close>

type_synonym provider_tuple = "string \<times> string \<times> string option \<times> config"

type_synonym engine =
  "provider_tuple list \<Rightarrow> request list \<Rightarrow> bool \<Rightarrow> int option
     \<Rightarrow> error + (progress_call list \<times> RequestMetrics list)"

text \<open>An f-string prints \<open>None\<close> as the four characters \<open>None\<close> and a string as itself.\<close>

definition format_optional :: "string option \<Rightarrow> string" where
  "format_optional b = (case b of None \<Rightarrow> ''None'' | Some s \<Rightarrow> s)"

definition provider_key :: "ProviderConfig \<Rightarrow> string" where
  "provider_key provider = name provider @ '':'' @ format_optional (base_url provider)"

definition provider_configs :: "BatchProcessor \<Rightarrow> provider_tuple list" where
  "provider_configs self = map (\<lambda>p. (name p, api_key p, base_url p, config p)) (providers self)"

text \<open>
  The arguments of the single engine call (lines 130 to 142); \<open>self.providers[0]\<close> raises
  \<open>IndexError\<close> on an empty list.
\<close>

definition engine_args ::
  "BatchProcessor \<Rightarrow> request list
     \<Rightarrow> error + (provider_tuple list \<times> request list \<times> bool \<times> int option)" where
  "engine_args self requests =
     (case providers self of
        [] \<Rightarrow> Inl IndexError
      | p0 # _ \<Rightarrow> Inr (provider_configs self, requests, test_mode p0, tokens_per_minute p0))"

text \<open>
  The nested result built for one provider from its metrics and the elapsed time (lines
  150 to 160).
\<close>

definition provider_result :: "RequestMetrics list \<Rightarrow> real \<Rightarrow> BatchRequestResult" where
  "provider_result pm elapsed =
     BatchRequestResult
       (int (length pm))
       (sum_list (map (\<lambda>m. rm_prompt_tokens m + rm_completion_tokens m) pm))
       (sum_list (map rm_prompt_tokens pm))
       (sum_list (map rm_completion_tokens pm))
       elapsed
       pm
       (sum_list (map request_bytes pm))
       (sum_list (map response_bytes pm))
       []"

text \<open>
  The clock is a function from the number of the reading to the time read:
  \<open>clk 0\<close> is \<open>start_time\<close>, every \<open>update_progress\<close> takes one reading, every
  per-provider result that is created takes one, and the overall result takes the last.
  The loop over the providers (lines 145 to 160) threads the dictionary and the number of
  the next reading; \<open>process_batch\<close> ends with the overall result of lines 162 to 172.
\<close>

fun provider_loop ::
  "(nat \<Rightarrow> real) \<Rightarrow> real \<Rightarrow> RequestMetrics list \<Rightarrow> ProviderConfig list
     \<Rightarrow> (string \<times> BatchRequestResult) list \<times> nat
     \<Rightarrow> (string \<times> BatchRequestResult) list \<times> nat" where
  "provider_loop clk start_time ms [] st = st"
| "provider_loop clk start_time ms (provider # rest) (provider_results, tick) =
     (let key = provider_key provider;
          pm = filter (\<lambda>m. provider_name m = key) ms
      in if pm \<noteq> []
         then provider_loop clk start_time ms rest
                (AList.update key (provider_result pm (clk tick - start_time)) provider_results,
                 Suc tick)
         else provider_loop clk start_time ms rest (provider_results, tick))"

definition process_batch ::
  "engine \<Rightarrow> (nat \<Rightarrow> real) \<Rightarrow> BatchProcessor \<Rightarrow> request list \<Rightarrow> error + BatchRequestResult" where
  "process_batch eng clk self requests =
     (let start_time = clk 0 in
      case engine_args self requests of
        Inl e \<Rightarrow> Inl e
      | Inr (cfgs, reqs, tm, tpm) \<Rightarrow>
          (case eng cfgs reqs tm tpm of
             Inl e \<Rightarrow> Inl e
           | Inr (calls, ms) \<Rightarrow>
               (let c = fold update_progress calls init_counters;
                    looped = provider_loop clk start_time ms (providers self)
                               ([], Suc (length calls))
                in Inr (BatchRequestResult
                          (int (length ms))
                          (c_total_tokens c)
                          (c_prompt_tokens c)
                          (c_completion_tokens c)
                          (clk (snd looped) - start_time)
                          ms
                          (c_total_request_bytes c)
                          (c_total_response_bytes c)
                          (fst looped)))))"

section \<open>The native dispatch engine, from its specification\<close>

text \<open>
  \<open>process_requests_multi\<close> lives in the compiled extension module
  \<open>axicontraves.axicontraves\<close>, whose source is not available; only its call in
  \<open>process_batch\<close> is. The definitions of this section follow the specification's
  description of the dispatcher (sections 3, 4.1, 4.3, 4.4, 4.5 and 6). What the
  specification leaves to the environment is a parameter: the outcome of every transport
  exchange, the instant at which every request finishes, the provider names the engine
  knows, and the number of active workers.
\<close>

text \<open>
  Modelled from the spec: the failures of one transport exchange of the absent engine
  (4.1: timeout, connection refused, malformed response, non-2xx status).
\<close>

datatype transport_error = Timeout | ConnectionRefused | MalformedResponse | BadStatus

text \<open>
  Modelled from the spec: the payload of a successful transport exchange of the absent
  engine (4.1: token counts, byte counts and timing; 3: all counts are at least 0, so
  they are natural numbers here).
\<close>

record transport_reply =
  reply_prompt_tokens :: nat
  reply_completion_tokens :: nat
  reply_request_bytes :: nat
  reply_response_bytes :: nat
  reply_duration :: real

text \<open>
  Modelled from the spec: the environment of the absent engine. \<open>transport tm i p r\<close> is
  the outcome of the exchange for the request with submission index \<open>i\<close>, sent to provider
  \<open>p\<close> with test mode \<open>tm\<close> (4.1: a result or a \<open>TransportError\<close>); \<open>finish i\<close> is the
  instant at which that request reaches its terminal state, which fixes the completion
  order (4.3); \<open>known_provider\<close> tells the provider names the engine accepts (7);
  \<open>active_workers k\<close> is the worker count reported with the notification number \<open>k\<close> (4.5).
\<close>

record world =
  transport :: "bool \<Rightarrow> nat \<Rightarrow> provider_tuple \<Rightarrow> request \<Rightarrow> transport_error + transport_reply"
  finish :: "nat \<Rightarrow> nat"
  known_provider :: "string \<Rightarrow> bool"
  active_workers :: "nat \<Rightarrow> nat"

text \<open>
  Modelled from the spec: the provider identity key of the absent engine, computed from the
  tuple the wrapper passes (6: the key is \<open>"{name}:{base_url}"\<close>, the same key the
  per-provider breakdown uses).
\<close>

fun tuple_key :: "provider_tuple \<Rightarrow> string" where
  "tuple_key (n, k, b, c) = n @ '':'' @ format_optional b"

text \<open>
  Modelled from the spec: the record the absent engine emits for a successful request
  (3: provider key, prompt and completion token counts, byte sizes, duration; total
  tokens are prompt tokens plus completion tokens).
\<close>

definition success_record :: "string \<Rightarrow> transport_reply \<Rightarrow> RequestMetrics" where
  "success_record key reply =
     \<lparr>provider_name = key,
      rm_prompt_tokens = int (reply_prompt_tokens reply),
      rm_completion_tokens = int (reply_completion_tokens reply),
      rm_total_tokens = int (reply_prompt_tokens reply) + int (reply_completion_tokens reply),
      request_bytes = int (reply_request_bytes reply),
      response_bytes = int (reply_response_bytes reply),
      request_time = reply_duration reply\<rparr>"

text \<open>
  Modelled from the spec: the record the absent engine keeps for a failed request (3: one
  record per completed or failed request; 4.4: failures count toward the requests
  attempted and contribute no tokens and no bytes).
\<close>

definition failure_record :: "string \<Rightarrow> RequestMetrics" where
  "failure_record key =
     \<lparr>provider_name = key,
      rm_prompt_tokens = 0,
      rm_completion_tokens = 0,
      rm_total_tokens = 0,
      request_bytes = 0,
      response_bytes = 0,
      request_time = 0\<rparr>"

text \<open>
  Modelled from the spec: the round-robin assignment of the absent engine (4.3: the
  request with submission index \<open>i\<close> goes to \<open>provider[i mod len(providers)]\<close>). The
  result lists the transport invocations in submission order, each with its index, its
  provider and its request; the counter is the shared index of section 5.
\<close>

fun dispatch_from ::
  "nat \<Rightarrow> provider_tuple list \<Rightarrow> request list \<Rightarrow> (nat \<times> provider_tuple \<times> request) list" where
  "dispatch_from i ps [] = []"
| "dispatch_from i ps (r # rs) = (i, ps ! (i mod length ps), r) # dispatch_from (Suc i) ps rs"

definition dispatch ::
  "provider_tuple list \<Rightarrow> request list \<Rightarrow> (nat \<times> provider_tuple \<times> request) list" where
  "dispatch ps rs = dispatch_from 0 ps rs"

text \<open>
  Modelled from the spec: one step of the absent engine's per-request algorithm (4.3,
  steps 3 and 4): invoke the transport once; a failure is recorded and isolated, a success
  yields its metrics. The rate limiter of step 2 only delays a request, which \<open>finish\<close>
  accounts for.
\<close>

fun run_request ::
  "world \<Rightarrow> bool \<Rightarrow> nat \<times> provider_tuple \<times> request \<Rightarrow> nat \<times> RequestMetrics" where
  "run_request w tm (i, p, r) =
     (i, case transport w tm i p r of
           Inl e \<Rightarrow> failure_record (tuple_key p)
         | Inr reply \<Rightarrow> success_record (tuple_key p) reply)"

text \<open>
  Modelled from the spec: the notification the absent engine sends to the progress sink
  for the \<open>k\<close>-th terminal request (4.5 and 6: cumulative completed count, total count,
  the increments of tokens and bytes, the active worker count).
\<close>

definition notify :: "world \<Rightarrow> nat \<Rightarrow> nat \<times> RequestMetrics \<Rightarrow> progress_call" where
  "notify w n km =
     \<lparr>pc_completed = int (Suc (fst km)),
      pc_total = int n,
      new_prompt_tokens = rm_prompt_tokens (snd km),
      new_completion_tokens = rm_completion_tokens (snd km),
      new_request_bytes = request_bytes (snd km),
      new_response_bytes = response_bytes (snd km),
      thread_count = int (active_workers w (fst km))\<rparr>"

text \<open>
  Modelled from the spec: the metrics the absent engine collects for a batch (4.3: every
  request is dispatched and run once, and its record is appended when it reaches its
  terminal state, so the list is in completion order, not in submission order).
\<close>

definition finished_metrics ::
  "world \<Rightarrow> bool \<Rightarrow> provider_tuple list \<Rightarrow> request list \<Rightarrow> RequestMetrics list" where
  "finished_metrics w tm cfgs reqs =
     map snd (sort_key (\<lambda>im. finish w (fst im)) (map (run_request w tm) (dispatch cfgs reqs)))"

text \<open>
  Modelled from the spec: the batch entry point \<open>process_requests_multi\<close> of the absent
  engine (6 and 7: no provider or an unknown provider name is a configuration error before
  any dispatch; 4.5: one notification per terminal request; the call returns when every
  request is terminal).
\<close>

definition process_requests_multi :: "world \<Rightarrow> engine" where
  "process_requests_multi w cfgs reqs tm tpm =
     (if cfgs = [] then Inl ConfigurationError
      else if list_ex (\<lambda>p. \<not> known_provider w (fst p)) cfgs then Inl ConfigurationError
      else
        (let ms = finished_metrics w tm cfgs reqs
         in Inr (map (notify w (length reqs)) (enumerate 0 ms), ms)))"

section \<open>Predicates used in the statements\<close>

text \<open>
  The invariant of one metrics record: total tokens are prompt tokens plus completion
  tokens, and no token or byte count is negative.
\<close>

definition metrics_invariant :: "RequestMetrics \<Rightarrow> bool" where
  "metrics_invariant m \<longleftrightarrow>
     rm_total_tokens m = rm_prompt_tokens m + rm_completion_tokens m
     \<and> 0 \<le> rm_prompt_tokens m \<and> 0 \<le> rm_completion_tokens m \<and> 0 \<le> rm_total_tokens m
     \<and> 0 \<le> request_bytes m \<and> 0 \<le> response_bytes m"

text \<open>The same invariant for an aggregate.\<close>

definition result_invariant :: "BatchRequestResult \<Rightarrow> bool" where
  "result_invariant r \<longleftrightarrow>
     total_tokens r = prompt_tokens r + completion_tokens r
     \<and> 0 \<le> prompt_tokens r \<and> 0 \<le> completion_tokens r \<and> 0 \<le> total_tokens r
     \<and> 0 \<le> total_request_bytes r \<and> 0 \<le> total_response_bytes r"

text \<open>Two provider configurations that differ at most in \<open>tokens_per_minute\<close>.\<close>

definition same_but_rate_limit :: "ProviderConfig \<Rightarrow> ProviderConfig \<Rightarrow> bool" where
  "same_but_rate_limit p q \<longleftrightarrow> q\<lparr>tokens_per_minute := tokens_per_minute p\<rparr> = p"

text \<open>The metrics of a list that carry a given provider key, as the wrapper selects them.\<close>

definition metrics_of_key :: "RequestMetrics list \<Rightarrow> string \<Rightarrow> RequestMetrics list" where
  "metrics_of_key ms key = filter (\<lambda>m. provider_name m = key) ms"

section \<open>Concrete inputs\<close>

text \<open>
  Two batches on which the statements below are exercised. In the first, two endpoints
  share the name \<open>openai\<close> and differ in the base URL, three requests are submitted, and
  the exchange of the request with index 1 times out. In the second, two providers named
  \<open>openai\<close> and one named \<open>anthropic\<close> have no base URL and two requests are
  submitted. Requests finish in the reverse of the submission order, and the clock
  advances by one second per reading.
\<close>

definition ex_a :: ProviderConfig where
  "ex_a = \<lparr>name = ''openai'', api_key = ''EMPTY'', config = [(''max_tokens'', CInt 50)],
           base_url = Some ''http://h:8080'', tokens_per_minute = Some 1000, test_mode = True\<rparr>"

definition ex_b :: ProviderConfig where
  "ex_b = \<lparr>name = ''openai'', api_key = ''EMPTY'', config = [(''max_tokens'', CInt 50)],
           base_url = Some ''http://h:8081'', tokens_per_minute = None, test_mode = True\<rparr>"

definition ex_c :: ProviderConfig where
  "ex_c = \<lparr>name = ''openai'', api_key = ''EMPTY'', config = [],
           base_url = None, tokens_per_minute = None, test_mode = True\<rparr>"

definition ex_d :: ProviderConfig where
  "ex_d = \<lparr>name = ''openai'', api_key = ''OTHER'', config = [],
           base_url = None, tokens_per_minute = Some 600, test_mode = False\<rparr>"

definition ex_e :: ProviderConfig where
  "ex_e = \<lparr>name = ''anthropic'', api_key = ''EMPTY'', config = [],
           base_url = None, tokens_per_minute = None, test_mode = True\<rparr>"

definition ex_request :: request where
  "ex_request = [[(''role'', ''user''), (''content'', ''hi'')]]"

definition ex_requests :: "request list" where
  "ex_requests = [ex_request, ex_request, ex_request]"

definition ex_world :: world where
  "ex_world =
     \<lparr>transport = (\<lambda>tm i p r.
        if i = 1 then Inl Timeout
        else Inr \<lparr>reply_prompt_tokens = 10 + i, reply_completion_tokens = 5,
                  reply_request_bytes = 100, reply_response_bytes = 50, reply_duration = 1\<rparr>),
      finish = (\<lambda>i. 5 - i),
      known_provider = (\<lambda>n. n = ''openai'' \<or> n = ''anthropic''),
      active_workers = (\<lambda>k. 2)\<rparr>"

definition ex_world_down :: world where
  "ex_world_down =
     \<lparr>transport = (\<lambda>tm i p r. Inl ConnectionRefused),
      finish = (\<lambda>i. i),
      known_provider = (\<lambda>n. n = ''openai'' \<or> n = ''anthropic''),
      active_workers = (\<lambda>k. 1)\<rparr>"

definition ex_clock :: "nat \<Rightarrow> real" where
  "ex_clock n = real n"

definition ex_processor :: BatchProcessor where
  "ex_processor = BatchProcessor_init (Several [ex_a, ex_b])"

definition ex_processor_no_url :: BatchProcessor where
  "ex_processor_no_url = BatchProcessor_init (Several [ex_c, ex_d, ex_e])"

definition ex_result :: BatchRequestResult where
  "ex_result =
     BatchRequestResult 3 32 22 10 6
       [\<lparr>provider_name = ''openai:http://h:8080'', rm_prompt_tokens = 12,
          rm_completion_tokens = 5, rm_total_tokens = 17,
          request_bytes = 100, response_bytes = 50, request_time = 1\<rparr>,
        \<lparr>provider_name = ''openai:http://h:8081'', rm_prompt_tokens = 0,
          rm_completion_tokens = 0, rm_total_tokens = 0,
          request_bytes = 0, response_bytes = 0, request_time = 0\<rparr>,
        \<lparr>provider_name = ''openai:http://h:8080'', rm_prompt_tokens = 10,
          rm_completion_tokens = 5, rm_total_tokens = 15,
          request_bytes = 100, response_bytes = 50, request_time = 1\<rparr>]
       200 100
       [(''openai:http://h:8080'',
         BatchRequestResult 2 32 22 10 4
           [\<lparr>provider_name = ''openai:http://h:8080'', rm_prompt_tokens = 12,
              rm_completion_tokens = 5, rm_total_tokens = 17,
              request_bytes = 100, response_bytes = 50, request_time = 1\<rparr>,
            \<lparr>provider_name = ''openai:http://h:8080'', rm_prompt_tokens = 10,
              rm_completion_tokens = 5, rm_total_tokens = 15,
              request_bytes = 100, response_bytes = 50, request_time = 1\<rparr>]
           200 100 []),
        (''openai:http://h:8081'',
         BatchRequestResult 1 0 0 0 5
           [\<lparr>provider_name = ''openai:http://h:8081'', rm_prompt_tokens = 0,
              rm_completion_tokens = 0, rm_total_tokens = 0,
              request_bytes = 0, response_bytes = 0, request_time = 0\<rparr>]
           0 0 [])]"

definition ex_result_no_url :: BatchRequestResult where
  "ex_result_no_url =
     BatchRequestResult 2 15 10 5 5
       [\<lparr>provider_name = ''openai:None'', rm_prompt_tokens = 0,
          rm_completion_tokens = 0, rm_total_tokens = 0,
          request_bytes = 0, response_bytes = 0, request_time = 0\<rparr>,
        \<lparr>provider_name = ''openai:None'', rm_prompt_tokens = 10,
          rm_completion_tokens = 5, rm_total_tokens = 15,
          request_bytes = 100, response_bytes = 50, request_time = 1\<rparr>]
       100 50
       [(''openai:None'',
         BatchRequestResult 2 15 10 5 4
           [\<lparr>provider_name = ''openai:None'', rm_prompt_tokens = 0,
              rm_completion_tokens = 0, rm_total_tokens = 0,
              request_bytes = 0, response_bytes = 0, request_time = 0\<rparr>,
            \<lparr>provider_name = ''openai:None'', rm_prompt_tokens = 10,
              rm_completion_tokens = 5, rm_total_tokens = 15,
              request_bytes = 100, response_bytes = 50, request_time = 1\<rparr>]
           100 50 [])]"

section \<open>Auxiliary facts\<close>

subsection \<open>The running totals\<close>

lemma fold_prompt:
  "c_prompt_tokens (fold update_progress calls c)
     = c_prompt_tokens c + sum_list (map new_prompt_tokens calls)"
  by (induction calls arbitrary: c) (simp_all add: update_progress_def Let_def)

lemma fold_completion:
  "c_completion_tokens (fold update_progress calls c)
     = c_completion_tokens c + sum_list (map new_completion_tokens calls)"
  by (induction calls arbitrary: c) (simp_all add: update_progress_def Let_def)

lemma fold_request_bytes:
  "c_total_request_bytes (fold update_progress calls c)
     = c_total_request_bytes c + sum_list (map new_request_bytes calls)"
  by (induction calls arbitrary: c) (simp_all add: update_progress_def Let_def)

lemma fold_response_bytes:
  "c_total_response_bytes (fold update_progress calls c)
     = c_total_response_bytes c + sum_list (map new_response_bytes calls)"
  by (induction calls arbitrary: c) (simp_all add: update_progress_def Let_def)

lemma fold_total:
  "c_total_tokens c = c_prompt_tokens c + c_completion_tokens c \<Longrightarrow>
   c_total_tokens (fold update_progress calls c)
     = c_prompt_tokens (fold update_progress calls c)
       + c_completion_tokens (fold update_progress calls c)"
  by (induction calls arbitrary: c) (simp_all add: update_progress_def Let_def)

subsection \<open>The loop over the providers\<close>

lemma provider_result_sel [simp]:
  "total_requests (provider_result pm el) = int (length pm)"
  "total_tokens (provider_result pm el)
     = sum_list (map (\<lambda>m. rm_prompt_tokens m + rm_completion_tokens m) pm)"
  "prompt_tokens (provider_result pm el) = sum_list (map rm_prompt_tokens pm)"
  "completion_tokens (provider_result pm el) = sum_list (map rm_completion_tokens pm)"
  "total_time (provider_result pm el) = el"
  "metrics (provider_result pm el) = pm"
  "total_request_bytes (provider_result pm el) = sum_list (map request_bytes pm)"
  "total_response_bytes (provider_result pm el) = sum_list (map response_bytes pm)"
  "provider_metrics (provider_result pm el) = []"
  by (simp_all add: provider_result_def)

text \<open>Every entry the loop leaves was there before or is the result for its own key.\<close>

lemma loop_entry:
  "map_of (fst (provider_loop clk st ms ps s)) k = Some e \<Longrightarrow>
   map_of (fst s) k = Some e \<or>
   (\<exists>el. e = provider_result [m\<leftarrow>ms. provider_name m = k] el
         \<and> [m\<leftarrow>ms. provider_name m = k] \<noteq> [])"
proof (induction ps arbitrary: s)
  case Nil
  then show ?case by simp
next
  case (Cons p ps)
  obtain res t where s: "s = (res, t)" by (cases s)
  show ?case
  proof (cases "[m\<leftarrow>ms. provider_name m = provider_key p] = []")
    case True
    with Cons.prems s have "map_of (fst (provider_loop clk st ms ps (res, t))) k = Some e"
      by (simp add: Let_def)
    from Cons.IH [OF this] show ?thesis using s by simp
  next
    case False
    let ?v = "provider_result [m\<leftarrow>ms. provider_name m = provider_key p] (clk t - st)"
    from Cons.prems s False
    have "map_of (fst (provider_loop clk st ms ps
            (AList.update (provider_key p) ?v res, Suc t))) k = Some e"
      by (simp add: Let_def)
    from Cons.IH [OF this]
    show ?thesis using s False
      by (auto simp: update_conv' split: if_splits)
  qed
qed

lemma loop_keys:
  "fst ` set (fst (provider_loop clk st ms ps s)) =
   fst ` set (fst s) \<union>
   {provider_key p |p. p \<in> set ps \<and> [m\<leftarrow>ms. provider_name m = provider_key p] \<noteq> []}"
proof (induction ps arbitrary: s)
  case Nil
  then show ?case by simp
next
  case (Cons p ps)
  obtain res t where s: "s = (res, t)" by (cases s)
  show ?case
    unfolding s by (auto simp: Let_def Cons.IH dom_update)
qed

lemma loop_distinct:
  "distinct (map fst (fst s)) \<Longrightarrow> distinct (map fst (fst (provider_loop clk st ms ps s)))"
proof (induction ps arbitrary: s)
  case Nil
  then show ?case by simp
next
  case (Cons p ps)
  obtain res t where s: "s = (res, t)" by (cases s)
  show ?case
    using Cons.prems unfolding s by (auto simp: Let_def intro!: Cons.IH distinct_update)
qed

subsection \<open>Sums over a partition by key\<close>

lemma sum_filter_disjoint:
  "(\<And>m. m \<in> set ms \<Longrightarrow> \<not> (P m \<and> Q m)) \<Longrightarrow>
   sum_list (map f [m\<leftarrow>ms. P m \<or> Q m])
     = sum_list (map f [m\<leftarrow>ms. P m]) + (sum_list (map f [m\<leftarrow>ms. Q m]) :: int)"
  by (induction ms) auto

lemma sum_by_key:
  "distinct ks \<Longrightarrow>
   sum_list (map (\<lambda>k. sum_list (map f [m\<leftarrow>ms. g m = k])) ks)
     = (sum_list (map f [m\<leftarrow>ms. g m \<in> set ks]) :: int)"
proof (induction ks)
  case Nil
  then show ?case by simp
next
  case (Cons k ks)
  have "sum_list (map f [m\<leftarrow>ms. g m = k \<or> g m \<in> set ks])
        = sum_list (map f [m\<leftarrow>ms. g m = k]) + sum_list (map f [m\<leftarrow>ms. g m \<in> set ks])"
    using Cons.prems by (intro sum_filter_disjoint) auto
  with Cons show ?case by simp
qed

lemma sum_entries:
  "(\<And>kv. kv \<in> set al \<Longrightarrow> F (snd kv) = G (fst kv)) \<Longrightarrow>
   sum_list (map (\<lambda>kv. F (snd kv)) al) = (sum_list (map G (map fst al)) :: int)"
  by (induction al) auto

subsection \<open>What a returned result is made of\<close>

lemma process_batch_Inr:
  assumes "process_batch eng clk bp rs = Inr r"
  obtains p0 rest calls ms where
    "providers bp = p0 # rest"
    "eng (provider_configs bp) rs (test_mode p0) (tokens_per_minute p0) = Inr (calls, ms)"
    "r = BatchRequestResult
           (int (length ms))
           (c_total_tokens (fold update_progress calls init_counters))
           (c_prompt_tokens (fold update_progress calls init_counters))
           (c_completion_tokens (fold update_progress calls init_counters))
           (clk (snd (provider_loop clk (clk 0) ms (providers bp) ([], Suc (length calls)))) - clk 0)
           ms
           (c_total_request_bytes (fold update_progress calls init_counters))
           (c_total_response_bytes (fold update_progress calls init_counters))
           (fst (provider_loop clk (clk 0) ms (providers bp) ([], Suc (length calls))))"
  using assms
  by (auto simp: process_batch_def engine_args_def Let_def split: list.splits sum.splits prod.splits)

lemma process_batch_fields:
  assumes "process_batch eng clk bp rs = Inr r"
  obtains calls ms where
    "providers bp \<noteq> []"
    "eng (provider_configs bp) rs (test_mode (hd (providers bp)))
       (tokens_per_minute (hd (providers bp))) = Inr (calls, ms)"
    "metrics r = ms"
    "total_requests r = int (length ms)"
    "prompt_tokens r = sum_list (map new_prompt_tokens calls)"
    "completion_tokens r = sum_list (map new_completion_tokens calls)"
    "total_tokens r = prompt_tokens r + completion_tokens r"
    "total_request_bytes r = sum_list (map new_request_bytes calls)"
    "total_response_bytes r = sum_list (map new_response_bytes calls)"
    "provider_metrics r = fst (provider_loop clk (clk 0) ms (providers bp) ([], Suc (length calls)))"
proof -
  from assms obtain p0 rest calls ms where
    a: "providers bp = p0 # rest"
    and b: "eng (provider_configs bp) rs (test_mode p0) (tokens_per_minute p0) = Inr (calls, ms)"
    and c: "r = BatchRequestResult
           (int (length ms))
           (c_total_tokens (fold update_progress calls init_counters))
           (c_prompt_tokens (fold update_progress calls init_counters))
           (c_completion_tokens (fold update_progress calls init_counters))
           (clk (snd (provider_loop clk (clk 0) ms (providers bp) ([], Suc (length calls)))) - clk 0)
           ms
           (c_total_request_bytes (fold update_progress calls init_counters))
           (c_total_response_bytes (fold update_progress calls init_counters))
           (fst (provider_loop clk (clk 0) ms (providers bp) ([], Suc (length calls))))"
    by (rule process_batch_Inr)
  have t: "c_total_tokens init_counters = c_prompt_tokens init_counters + c_completion_tokens init_counters"
    by (simp add: init_counters_def)
  show ?thesis
  proof (rule that)
    show "providers bp \<noteq> []" using a by simp
    show "eng (provider_configs bp) rs (test_mode (hd (providers bp)))
       (tokens_per_minute (hd (providers bp))) = Inr (calls, ms)" using a b by simp
    show "metrics r = ms" by (simp add: c)
    show "total_requests r = int (length ms)" by (simp add: c)
    show "prompt_tokens r = sum_list (map new_prompt_tokens calls)"
      by (simp add: c fold_prompt init_counters_def)
    show "completion_tokens r = sum_list (map new_completion_tokens calls)"
      by (simp add: c fold_completion init_counters_def)
    show "total_tokens r = prompt_tokens r + completion_tokens r"
      using fold_total [OF t, of calls] by (simp add: c)
    show "total_request_bytes r = sum_list (map new_request_bytes calls)"
      by (simp add: c fold_request_bytes init_counters_def)
    show "total_response_bytes r = sum_list (map new_response_bytes calls)"
      by (simp add: c fold_response_bytes init_counters_def)
    show "provider_metrics r = fst (provider_loop clk (clk 0) ms (providers bp) ([], Suc (length calls)))"
      by (simp add: c)
  qed
qed

subsection \<open>The entries of the per-provider breakdown\<close>

lemma breakdown_keys:
  assumes "process_batch eng clk bp rs = Inr r"
  shows "fst ` set (provider_metrics r) =
    {provider_key p |p. p \<in> set (providers bp) \<and> metrics_of_key (metrics r) (provider_key p) \<noteq> []}"
  using assms by (elim process_batch_fields) (simp add: loop_keys metrics_of_key_def)

lemma breakdown_distinct:
  assumes "process_batch eng clk bp rs = Inr r"
  shows "distinct (map fst (provider_metrics r))"
  using assms by (elim process_batch_fields) (simp add: loop_distinct)

lemma breakdown_entry:
  assumes "process_batch eng clk bp rs = Inr r" and "(k, e) \<in> set (provider_metrics r)"
  shows "e = provider_result (metrics_of_key (metrics r) k) (total_time e)
         \<and> metrics_of_key (metrics r) k \<noteq> []"
proof -
  from assms(1) have d: "distinct (map fst (provider_metrics r))" by (rule breakdown_distinct)
  with assms(2) have m: "map_of (provider_metrics r) k = Some e" by simp
  from assms(1) m show ?thesis
    by (elim process_batch_fields) (auto simp: metrics_of_key_def dest!: loop_entry)
qed

lemma breakdown_lookup:
  assumes "process_batch eng clk bp rs = Inr r" and "p \<in> set (providers bp)"
  shows "map_option metrics (map_of (provider_metrics r) (provider_key p)) =
     (if metrics_of_key (metrics r) (provider_key p) = [] then None
      else Some (metrics_of_key (metrics r) (provider_key p)))"
proof (cases "metrics_of_key (metrics r) (provider_key p) = []")
  case True
  with breakdown_keys [OF assms(1)] have "provider_key p \<notin> fst ` set (provider_metrics r)"
    by auto
  then have "map_of (provider_metrics r) (provider_key p) = None"
    by (simp add: map_of_eq_None_iff)
  with True show ?thesis by simp
next
  case False
  with breakdown_keys [OF assms(1)] assms(2)
  have "provider_key p \<in> fst ` set (provider_metrics r)" by auto
  then obtain e where e: "(provider_key p, e) \<in> set (provider_metrics r)" by auto
  with breakdown_distinct [OF assms(1)]
  have m: "map_of (provider_metrics r) (provider_key p) = Some e" by simp
  from breakdown_entry [OF assms(1) e]
  have "metrics e = metrics_of_key (metrics r) (provider_key p)"
    by (metis provider_result_sel(6))
  with m False show ?thesis by simp
qed

lemma at_most_one_entry:
  "distinct (map fst al) \<Longrightarrow> length [kv\<leftarrow>al. fst kv = k] \<le> 1"
  by (induction al) (auto simp: image_iff filter_empty_conv)

subsection \<open>The provider key\<close>

lemma keys_differ:
  "name p = name q \<Longrightarrow> base_url p = Some u \<Longrightarrow> base_url q = Some v \<Longrightarrow> u \<noteq> v \<Longrightarrow>
   provider_key p \<noteq> provider_key q"
  by (simp add: provider_key_def format_optional_def)

lemma provider_loop_rate_limit:
  "list_all2 same_but_rate_limit ps ps' \<Longrightarrow>
   provider_loop clk st ms ps' s = provider_loop clk st ms ps s"
proof (induction ps ps' arbitrary: s rule: list_all2_induct)
  case Nil
  then show ?case by simp
next
  case (Cons p ps q qs)
  obtain res t where s: "s = (res, t)" by (cases s)
  from Cons.hyps(1) have "provider_key q = provider_key p"
    by (cases p; cases q) (simp add: same_but_rate_limit_def provider_key_def)
  then show ?case unfolding s by (simp add: Cons.IH Let_def)
qed

lemma provider_configs_rate_limit:
  "list_all2 same_but_rate_limit ps ps' \<Longrightarrow>
   provider_configs \<lparr>providers = p # ps'\<rparr> = provider_configs \<lparr>providers = p # ps\<rparr>"
proof (induction ps ps' rule: list_all2_induct)
  case Nil
  then show ?case by simp
next
  case (Cons a as b bs)
  from Cons.hyps(1)
  have "(name b, api_key b, base_url b, config b) = (name a, api_key a, base_url a, config a)"
    by (cases a; cases b) (simp add: same_but_rate_limit_def)
  with Cons.IH show ?case by (simp add: provider_configs_def)
qed

subsection \<open>The engine of the specification\<close>

lemma dispatch_from_length: "length (dispatch_from i ps rs) = length rs"
  by (induction rs arbitrary: i) simp_all

lemma dispatch_from_nth:
  "j < length rs \<Longrightarrow>
   dispatch_from i ps rs ! j = (i + j, ps ! ((i + j) mod length ps), rs ! j)"
proof (induction rs arbitrary: i j)
  case Nil
  then show ?case by simp
next
  case (Cons r rs)
  show ?case
  proof (cases j)
    case 0
    then show ?thesis by simp
  next
    case (Suc k)
    with Cons.prems have "k < length rs" by simp
    from Cons.IH [OF this, of "Suc i"] Suc show ?thesis by simp
  qed
qed

lemma dispatch_map:
  "dispatch ps rs = map (\<lambda>i. (i, ps ! (i mod length ps), rs ! i)) [0..<length rs]"
  by (rule nth_equalityI) (simp_all add: dispatch_def dispatch_from_length dispatch_from_nth)

lemma dispatch_provider:
  assumes "ps \<noteq> []" and "(i, p, r) \<in> set (dispatch ps rs)"
  shows "p \<in> set ps"
proof -
  from assms(2) obtain j where "p = ps ! (j mod length ps)"
    by (auto simp: dispatch_map)
  with assms(1) show ?thesis by simp
qed

lemma run_request_invariant: "metrics_invariant (snd (run_request w tm ipr))"
  by (cases ipr) (simp add: metrics_invariant_def success_record_def failure_record_def
      split: sum.splits)

lemma run_request_key: "provider_name (snd (run_request w tm (i, p, r))) = tuple_key p"
  by (simp add: success_record_def failure_record_def split: sum.splits)

lemma finished_mset:
  "mset (finished_metrics w tm cfgs rs)
     = mset (map (\<lambda>ipr. snd (run_request w tm ipr)) (dispatch cfgs rs))"
proof -
  have "mset (sort_key (\<lambda>im. finish w (fst im)) (map (run_request w tm) (dispatch cfgs rs)))
        = mset (map (run_request w tm) (dispatch cfgs rs))"
    by (rule mset_sort)
  then have "image_mset snd (mset (sort_key (\<lambda>im. finish w (fst im))
                 (map (run_request w tm) (dispatch cfgs rs))))
        = image_mset snd (mset (map (run_request w tm) (dispatch cfgs rs)))"
    by (rule arg_cong)
  then show ?thesis
    by (simp add: finished_metrics_def multiset.map_comp comp_def)
qed

lemma finished_set:
  "set (finished_metrics w tm cfgs rs)
     = (\<lambda>ipr. snd (run_request w tm ipr)) ` set (dispatch cfgs rs)"
  by (simp add: finished_metrics_def image_image)

lemma finished_length: "length (finished_metrics w tm cfgs rs) = length rs"
  by (simp add: finished_metrics_def dispatch_def dispatch_from_length)

lemma notify_sums:
  "map new_prompt_tokens (map (notify w n) (enumerate 0 ms)) = map rm_prompt_tokens ms"
  "map new_completion_tokens (map (notify w n) (enumerate 0 ms)) = map rm_completion_tokens ms"
  "map new_request_bytes (map (notify w n) (enumerate 0 ms)) = map request_bytes ms"
  "map new_response_bytes (map (notify w n) (enumerate 0 ms)) = map response_bytes ms"
  by (simp_all add: notify_def comp_def enumerate_eq_zip map_snd_zip_take flip: map_map [of _ snd, unfolded comp_def])

lemma tuple_key_provider:
  "tuple_key (name p, api_key p, base_url p, config p) = provider_key p"
  by (simp add: provider_key_def)

lemma engine_result:
  assumes "process_requests_multi w cfgs rs tm tpm = Inr (calls, ms)"
  shows "cfgs \<noteq> []" and "\<forall>p\<in>set cfgs. known_provider w (fst p)"
    and "ms = finished_metrics w tm cfgs rs"
    and "calls = map (notify w (length rs)) (enumerate 0 ms)"
  using assms
  by (auto simp: process_requests_multi_def Let_def list_ex_iff split: if_splits)

lemma engine_runs:
  assumes "cfgs \<noteq> []" and "\<forall>p\<in>set cfgs. known_provider w (fst p)"
  shows "process_requests_multi w cfgs rs tm tpm =
    Inr (map (notify w (length rs)) (enumerate 0 (finished_metrics w tm cfgs rs)),
         finished_metrics w tm cfgs rs)"
  using assms by (simp add: process_requests_multi_def Let_def list_ex_iff)

lemma spec_batch_returns:
  assumes "providers bp \<noteq> []" and "\<forall>p\<in>set (providers bp). known_provider w (name p)"
  shows "\<exists>r. process_batch (process_requests_multi w) clk bp rs = Inr r"
proof -
  from assms(1) obtain p0 rest where ps: "providers bp = p0 # rest"
    by (cases "providers bp") auto
  have c: "provider_configs bp \<noteq> []" using assms(1) by (simp add: provider_configs_def)
  have k: "\<forall>p\<in>set (provider_configs bp). known_provider w (fst p)"
    using assms(2) by (auto simp: provider_configs_def)
  show ?thesis
    by (simp add: process_batch_def engine_args_def ps engine_runs [OF c k] Let_def)
qed

lemma spec_batch_fields:
  assumes "process_batch (process_requests_multi w) clk bp rs = Inr r"
  shows "providers bp \<noteq> []"
    and "\<forall>p\<in>set (providers bp). known_provider w (name p)"
    and "metrics r = finished_metrics w (test_mode (hd (providers bp))) (provider_configs bp) rs"
    and "total_requests r = int (length rs)"
    and "prompt_tokens r = sum_list (map rm_prompt_tokens (metrics r))"
    and "completion_tokens r = sum_list (map rm_completion_tokens (metrics r))"
    and "total_tokens r = prompt_tokens r + completion_tokens r"
    and "total_request_bytes r = sum_list (map request_bytes (metrics r))"
    and "total_response_bytes r = sum_list (map response_bytes (metrics r))"
proof -
  from assms obtain calls ms where
    ne: "providers bp \<noteq> []"
    and e: "process_requests_multi w (provider_configs bp) rs (test_mode (hd (providers bp)))
       (tokens_per_minute (hd (providers bp))) = Inr (calls, ms)"
    and f: "metrics r = ms" "total_requests r = int (length ms)"
      "prompt_tokens r = sum_list (map new_prompt_tokens calls)"
      "completion_tokens r = sum_list (map new_completion_tokens calls)"
      "total_tokens r = prompt_tokens r + completion_tokens r"
      "total_request_bytes r = sum_list (map new_request_bytes calls)"
      "total_response_bytes r = sum_list (map new_response_bytes calls)"
    by (rule process_batch_fields)
  note er = engine_result [OF e]
  show "providers bp \<noteq> []" by (rule ne)
  show "\<forall>p\<in>set (providers bp). known_provider w (name p)"
    using er(2) by (auto simp: provider_configs_def)
  show "metrics r = finished_metrics w (test_mode (hd (providers bp))) (provider_configs bp) rs"
    using f(1) er(3) by simp
  show "total_requests r = int (length rs)"
    using f(2) er(3) by (simp add: finished_length)
  show "prompt_tokens r = sum_list (map rm_prompt_tokens (metrics r))"
    using f(1,3) er(4) by (simp only: notify_sums)
  show "completion_tokens r = sum_list (map rm_completion_tokens (metrics r))"
    using f(1,4) er(4) by (simp only: notify_sums)
  show "total_tokens r = prompt_tokens r + completion_tokens r" by (rule f(5))
  show "total_request_bytes r = sum_list (map request_bytes (metrics r))"
    using f(1,6) er(4) by (simp only: notify_sums)
  show "total_response_bytes r = sum_list (map response_bytes (metrics r))"
    using f(1,7) er(4) by (simp only: notify_sums)
qed

lemma spec_batch_metric:
  assumes "process_batch (process_requests_multi w) clk bp rs = Inr r"
    and "m \<in> set (metrics r)"
  shows "metrics_invariant m" and "provider_name m \<in> provider_key ` set (providers bp)"
proof -
  note f = spec_batch_fields [OF assms(1)]
  let ?tm = "test_mode (hd (providers bp))"
  from assms(2) f(3) obtain i p q where
    d: "(i, p, q) \<in> set (dispatch (provider_configs bp) rs)"
    and m: "m = snd (run_request w ?tm (i, p, q))"
    by (auto simp: finished_set)
  show "metrics_invariant m" unfolding m by (rule run_request_invariant)
  from f(1) have "provider_configs bp \<noteq> []" by (simp add: provider_configs_def)
  from dispatch_provider [OF this d] obtain c where
    c: "c \<in> set (providers bp)" and p: "p = (name c, api_key c, base_url c, config c)"
    by (auto simp: provider_configs_def)
  have "provider_name m = provider_key c"
    unfolding m p run_request_key by (rule tuple_key_provider)
  with c show "provider_name m \<in> provider_key ` set (providers bp)" by blast
qed

lemma sum_list_ones: "sum_list (map (\<lambda>_. 1) xs) = int (length xs)"
  by (induction xs) simp_all

lemma breakdown_sum:
  assumes run: "process_batch eng clk bp rs = Inr r"
    and cover: "\<forall>m\<in>set (metrics r). provider_name m \<in> provider_key ` set (providers bp)"
    and F: "\<And>pm el. F (provider_result pm el) = (sum_list (map f pm) :: int)"
  shows "sum_list (map (\<lambda>kv. F (snd kv)) (provider_metrics r)) = sum_list (map f (metrics r))"
proof -
  let ?al = "provider_metrics r"
  let ?ms = "metrics r"
  have "sum_list (map (\<lambda>kv. F (snd kv)) ?al)
      = sum_list (map (\<lambda>k. sum_list (map f [m\<leftarrow>?ms. provider_name m = k])) (map fst ?al))"
  proof (rule sum_entries)
    fix kv assume "kv \<in> set ?al"
    then have "(fst kv, snd kv) \<in> set ?al" by simp
    from breakdown_entry [OF run this]
    have "snd kv = provider_result (metrics_of_key ?ms (fst kv)) (total_time (snd kv))" by simp
    then have "F (snd kv) = sum_list (map f (metrics_of_key ?ms (fst kv)))"
      using F by metis
    then show "F (snd kv) = sum_list (map f [m\<leftarrow>?ms. provider_name m = fst kv])"
      by (simp add: metrics_of_key_def)
  qed
  also have "\<dots> = sum_list (map f [m\<leftarrow>?ms. provider_name m \<in> set (map fst ?al)])"
    using breakdown_distinct [OF run] by (rule sum_by_key)
  also have "[m\<leftarrow>?ms. provider_name m \<in> set (map fst ?al)] = ?ms"
  proof -
    have "provider_name m \<in> set (map fst ?al)" if "m \<in> set ?ms" for m
    proof -
      from cover that obtain p where p: "p \<in> set (providers bp)"
        and k: "provider_name m = provider_key p" by auto
      from that k have "m \<in> set (metrics_of_key ?ms (provider_key p))"
        by (simp add: metrics_of_key_def)
      then have "metrics_of_key ?ms (provider_key p) \<noteq> []" by auto
      with p have "provider_key p \<in> fst ` set ?al"
        unfolding breakdown_keys [OF run] by blast
      with k show ?thesis by simp
    qed
    then show ?thesis by (simp add: filter_id_conv)
  qed
  finally show ?thesis .
qed

lemma provider_result_invariant:
  assumes "\<forall>m\<in>set pm. metrics_invariant m"
  shows "result_invariant (provider_result pm el)"
proof -
  have p: "0 \<le> sum_list (map rm_prompt_tokens pm)"
    using assms by (intro sum_list_nonneg) (auto simp: metrics_invariant_def)
  have c: "0 \<le> sum_list (map rm_completion_tokens pm)"
    using assms by (intro sum_list_nonneg) (auto simp: metrics_invariant_def)
  have q: "0 \<le> sum_list (map request_bytes pm)"
    using assms by (intro sum_list_nonneg) (auto simp: metrics_invariant_def)
  have s: "0 \<le> sum_list (map response_bytes pm)"
    using assms by (intro sum_list_nonneg) (auto simp: metrics_invariant_def)
  from p c q s show ?thesis
    by (simp add: result_invariant_def sum_list_addf)
qed

lemma failed_run_zero:
  assumes "isl (transport w tm i p q)"
  shows "rm_prompt_tokens (snd (run_request w tm (i, p, q))) = 0"
    and "rm_completion_tokens (snd (run_request w tm (i, p, q))) = 0"
    and "request_bytes (snd (run_request w tm (i, p, q))) = 0"
    and "response_bytes (snd (run_request w tm (i, p, q))) = 0"
  using assms by (auto simp: failure_record_def split: sum.splits)

lemma sum_list_zero:
  "(\<And>x. x \<in> set xs \<Longrightarrow> f x = (0::int)) \<Longrightarrow> sum_list (map f xs) = 0"
  by (induction xs) simp_all

subsection \<open>The two concrete batches, evaluated\<close>

lemma ex_run:
  "process_batch (process_requests_multi ex_world) ex_clock ex_processor ex_requests
     = Inr ex_result"
  by (simp add: process_batch_def engine_args_def process_requests_multi_def
      provider_configs_def ex_a_def ex_b_def ex_world_def ex_requests_def ex_processor_def
      BatchProcessor_init_def ex_result_def finished_metrics_def dispatch_def success_record_def
      failure_record_def notify_def format_optional_def enumerate_eq_zip Let_def upt_rec
      ex_clock_def provider_key_def provider_result_def update_progress_def
      init_counters_def)

lemma ex_run_no_url:
  "process_batch (process_requests_multi ex_world) ex_clock ex_processor_no_url
     [ex_request, ex_request] = Inr ex_result_no_url"
  by (simp add: process_batch_def engine_args_def process_requests_multi_def
      provider_configs_def ex_c_def ex_d_def ex_e_def ex_world_def ex_processor_no_url_def
      BatchProcessor_init_def ex_result_no_url_def finished_metrics_def dispatch_def success_record_def
      failure_record_def notify_def format_optional_def enumerate_eq_zip Let_def upt_rec
      ex_clock_def provider_key_def provider_result_def update_progress_def
      init_counters_def)

section \<open>The claims settled on the wrapper alone\<close>

text \<open>
  The statements of this section hold for every engine: \<open>eng\<close> is arbitrary, so they
  depend on no assumption about the native module.
\<close>

text \<open>
  C2. A batch with a non-empty provider list makes one engine call, and the only rate
  limit that call carries is the first provider's \<open>tokens_per_minute\<close>: the tuples handed
  over have no such field. So if the providers after the first are replaced by providers
  that differ from them at most in \<open>tokens_per_minute\<close>, the arguments of the engine call
  and the whole outcome of \<open>process_batch\<close> are unchanged. The budget itself is created
  inside the engine, from that single argument.
\<close>

theorem C2_only_first_rate_limit:
  assumes "list_all2 same_but_rate_limit ps ps'"
  shows "engine_args \<lparr>providers = p # ps\<rparr> rs
           = Inr (provider_configs \<lparr>providers = p # ps\<rparr>, rs, test_mode p, tokens_per_minute p)
       \<and> engine_args \<lparr>providers = p # ps'\<rparr> rs = engine_args \<lparr>providers = p # ps\<rparr> rs
       \<and> process_batch eng clk \<lparr>providers = p # ps'\<rparr> rs
           = process_batch eng clk \<lparr>providers = p # ps\<rparr> rs"
proof -
  have a: "engine_args \<lparr>providers = p # ps\<rparr> rs
           = Inr (provider_configs \<lparr>providers = p # ps\<rparr>, rs, test_mode p, tokens_per_minute p)"
    by (simp add: engine_args_def)
  have b: "engine_args \<lparr>providers = p # ps'\<rparr> rs = engine_args \<lparr>providers = p # ps\<rparr> rs"
    using provider_configs_rate_limit [OF assms, of p] by (simp add: engine_args_def)
  have "process_batch eng clk \<lparr>providers = p # ps'\<rparr> rs
           = process_batch eng clk \<lparr>providers = p # ps\<rparr> rs"
    by (simp add: process_batch_def b provider_loop_rate_limit [OF assms] Let_def
        split: sum.splits prod.splits)
  with a b show ?thesis by simp
qed

theorem C2_only_first_rate_limit_witness:
  "list_all2 same_but_rate_limit [ex_b] [ex_b\<lparr>tokens_per_minute := Some 5\<rparr>]
   \<and> engine_args \<lparr>providers = [ex_a, ex_b\<lparr>tokens_per_minute := Some 5\<rparr>]\<rparr> ex_requests
       = Inr (provider_configs \<lparr>providers = [ex_a, ex_b]\<rparr>, ex_requests, True, Some 1000)
   \<and> process_batch (process_requests_multi ex_world) ex_clock
        \<lparr>providers = [ex_a, ex_b\<lparr>tokens_per_minute := Some 5\<rparr>]\<rparr> ex_requests
       = process_batch (process_requests_multi ex_world) ex_clock
           \<lparr>providers = [ex_a, ex_b]\<rparr> ex_requests"
  using C2_only_first_rate_limit [of "[ex_b]" "[ex_b\<lparr>tokens_per_minute := Some 5\<rparr>]"
      ex_a ex_requests "process_requests_multi ex_world" ex_clock]
  by (simp add: same_but_rate_limit_def ex_a_def)

text \<open>
  C4. Every derived rate returns a value and never raises: it is the sum divided by the
  elapsed time when \<open>total_time\<close> is positive and 0 otherwise, in particular when
  \<open>total_time\<close> is 0. For the two bandwidth rates the sum is the byte total expressed in
  megabits (bytes times 8, over 1000000). Floats are read as real numbers.
\<close>

theorem C4_derived_rates:
  "requests_per_second r =
     Inr (if total_time r > 0 then real_of_int (total_requests r) / total_time r else 0)
   \<and> tokens_per_second r =
     Inr (if total_time r > 0 then real_of_int (total_tokens r) / total_time r else 0)
   \<and> prompt_tokens_per_second r =
     Inr (if total_time r > 0 then real_of_int (prompt_tokens r) / total_time r else 0)
   \<and> completion_tokens_per_second r =
     Inr (if total_time r > 0 then real_of_int (completion_tokens r) / total_time r else 0)
   \<and> uplink_mbps r =
     Inr (if total_time r > 0
          then (real_of_int (total_request_bytes r) * 8 / 1000000) / total_time r else 0)
   \<and> downlink_mbps r =
     Inr (if total_time r > 0
          then (real_of_int (total_response_bytes r) * 8 / 1000000) / total_time r else 0)"
  by (simp add: requests_per_second_def tokens_per_second_def prompt_tokens_per_second_def
      completion_tokens_per_second_def uplink_mbps_def downlink_mbps_def truediv_def)

text \<open>
  C7. The keys of the per-provider breakdown are keys \<open>name:base_url\<close> of configured
  providers. Two configured providers with the same name and different base URLs have
  different keys, the entry under each key holds exactly the metrics that carry that key
  (there is no entry when there are none), and no metric is counted under both. Both base
  URLs are set here; a base URL that is not set prints as \<open>None\<close> and is the subject of
  C10.
\<close>

theorem C7_key_separates_base_urls:
  assumes "process_batch eng clk bp rs = Inr r"
    and "p \<in> set (providers bp)" and "q \<in> set (providers bp)"
    and "name p = name q" and "base_url p = Some u" and "base_url q = Some v" and "u \<noteq> v"
  shows "provider_key p = name p @ '':'' @ u
       \<and> provider_key q = name q @ '':'' @ v
       \<and> provider_key p \<noteq> provider_key q
       \<and> fst ` set (provider_metrics r) \<subseteq> provider_key ` set (providers bp)
       \<and> map_option metrics (map_of (provider_metrics r) (provider_key p)) =
           (if metrics_of_key (metrics r) (provider_key p) = [] then None
            else Some (metrics_of_key (metrics r) (provider_key p)))
       \<and> map_option metrics (map_of (provider_metrics r) (provider_key q)) =
           (if metrics_of_key (metrics r) (provider_key q) = [] then None
            else Some (metrics_of_key (metrics r) (provider_key q)))
       \<and> set (metrics_of_key (metrics r) (provider_key p))
           \<inter> set (metrics_of_key (metrics r) (provider_key q)) = {}"
proof -
  have kp: "provider_key p = name p @ '':'' @ u"
    using assms(5) by (simp add: provider_key_def format_optional_def)
  have kq: "provider_key q = name q @ '':'' @ v"
    using assms(6) by (simp add: provider_key_def format_optional_def)
  have ne: "provider_key p \<noteq> provider_key q"
    using assms(4-7) by (rule keys_differ)
  have sub: "fst ` set (provider_metrics r) \<subseteq> provider_key ` set (providers bp)"
    unfolding breakdown_keys [OF assms(1)] by auto
  have disj: "set (metrics_of_key (metrics r) (provider_key p))
           \<inter> set (metrics_of_key (metrics r) (provider_key q)) = {}"
    using ne by (auto simp: metrics_of_key_def)
  from kp kq ne sub disj breakdown_lookup [OF assms(1,2)] breakdown_lookup [OF assms(1,3)]
  show ?thesis by simp
qed

theorem C7_key_separates_base_urls_witness:
  "provider_key ex_a = ''openai:http://h:8080''
   \<and> provider_key ex_b = ''openai:http://h:8081''
   \<and> map_option metrics (map_of (provider_metrics ex_result) (provider_key ex_a)) =
       Some (metrics_of_key (metrics ex_result) (provider_key ex_a))
   \<and> map_option metrics (map_of (provider_metrics ex_result) (provider_key ex_b)) =
       Some (metrics_of_key (metrics ex_result) (provider_key ex_b))
   \<and> length (metrics_of_key (metrics ex_result) (provider_key ex_a)) = 2
   \<and> length (metrics_of_key (metrics ex_result) (provider_key ex_b)) = 1"
  using C7_key_separates_base_urls [OF ex_run, of ex_a ex_b "''http://h:8080''" "''http://h:8081''"]
  by (simp add: ex_processor_def BatchProcessor_init_def ex_a_def ex_b_def ex_result_def
      metrics_of_key_def provider_key_def format_optional_def)

text \<open>
  C8. A configured provider whose key no returned metric carries has no entry in the
  per-provider mapping of the result: a lookup of its key finds nothing, and the key is
  not among the keys of the mapping.
\<close>

theorem C8_no_entry_without_metrics:
  assumes "process_batch eng clk bp rs = Inr r"
    and "p \<in> set (providers bp)"
    and "metrics_of_key (metrics r) (provider_key p) = []"
  shows "map_of (provider_metrics r) (provider_key p) = None
       \<and> provider_key p \<notin> fst ` set (provider_metrics r)"
proof -
  from assms(3) have "provider_key p \<notin> fst ` set (provider_metrics r)"
    unfolding breakdown_keys [OF assms(1)] by auto
  then show ?thesis by (simp add: map_of_eq_None_iff)
qed

theorem C8_no_entry_without_metrics_witness:
  "ex_e \<in> set (providers ex_processor_no_url)
   \<and> metrics_of_key (metrics ex_result_no_url) (provider_key ex_e) = []
   \<and> map_of (provider_metrics ex_result_no_url) (provider_key ex_e) = None
   \<and> provider_key ex_e \<notin> fst ` set (provider_metrics ex_result_no_url)"
  using C8_no_entry_without_metrics [OF ex_run_no_url, of ex_e]
  by (simp add: ex_processor_no_url_def BatchProcessor_init_def ex_e_def ex_result_no_url_def
      metrics_of_key_def provider_key_def format_optional_def)

text \<open>
  C9. The constructor stores a single \<open>ProviderConfig\<close> as the one-element list of it, so
  the processor built from a configuration is the processor built from the list holding
  it, and \<open>process_batch\<close> returns (or raises) the same on both.
\<close>

theorem C9_single_config_is_singleton_list:
  "BatchProcessor_init (Single p) = BatchProcessor_init (Several [p])
   \<and> providers (BatchProcessor_init (Single p)) = [p]
   \<and> process_batch eng clk (BatchProcessor_init (Single p)) rs
       = process_batch eng clk (BatchProcessor_init (Several [p])) rs"
  by (simp add: BatchProcessor_init_def)

text \<open>
  C10. The key of a provider with no base URL is its name followed by \<open>:None\<close>. Two
  configured providers with the same name and no base URL therefore have the same key;
  the mapping of the result has at most one entry under it, and that entry holds every
  metric that carries the key.
\<close>

theorem C10_unset_base_url_key:
  assumes "process_batch eng clk bp rs = Inr r"
    and "p \<in> set (providers bp)" and "q \<in> set (providers bp)"
    and "name p = name q" and "base_url p = None" and "base_url q = None"
  shows "provider_key p = name p @ '':None''
       \<and> provider_key q = provider_key p
       \<and> length [kv\<leftarrow>provider_metrics r. fst kv = provider_key p] \<le> 1
       \<and> map_option metrics (map_of (provider_metrics r) (provider_key p)) =
           (if metrics_of_key (metrics r) (provider_key p) = [] then None
            else Some (metrics_of_key (metrics r) (provider_key p)))"
proof -
  have kp: "provider_key p = name p @ '':None''"
    using assms(5) by (simp add: provider_key_def format_optional_def)
  have kq: "provider_key q = provider_key p"
    using assms(4-6) by (simp add: provider_key_def)
  have one: "length [kv\<leftarrow>provider_metrics r. fst kv = provider_key p] \<le> 1"
    using breakdown_distinct [OF assms(1)] by (rule at_most_one_entry)
  from kp kq one breakdown_lookup [OF assms(1,2)] show ?thesis by simp
qed

theorem C10_unset_base_url_key_witness:
  "provider_key ex_c = ''openai:None''
   \<and> provider_key ex_d = ''openai:None''
   \<and> map fst (provider_metrics ex_result_no_url) = [''openai:None'']
   \<and> map_option metrics (map_of (provider_metrics ex_result_no_url) (provider_key ex_c)) =
       Some (metrics ex_result_no_url)"
  using C10_unset_base_url_key [OF ex_run_no_url, of ex_c ex_d]
  by (simp add: ex_processor_no_url_def BatchProcessor_init_def ex_c_def ex_d_def
      ex_result_no_url_def metrics_of_key_def provider_key_def format_optional_def)

section \<open>The claims that rest on the engine of the specification\<close>

text \<open>
  The statements of this section are about \<open>process_batch\<close> run on the engine modelled
  from the specification, for every transport outcome, every completion order, every
  set of known provider names and every clock.
\<close>

text \<open>
  C1. In a batch of \<open>N\<close> requests against \<open>P\<close> providers that passes the configuration
  check, the engine makes \<open>N\<close> transport invocations, one per request, and the invocation
  for the request with submission index \<open>i\<close> goes to provider \<open>i mod P\<close>. The result
  counts \<open>N\<close> requests and its metrics are, up to order, the records of exactly these
  invocations; a different completion order permutes the metrics and changes nothing else.
\<close>

theorem C1_round_robin_dispatch:
  assumes "process_batch (process_requests_multi w) clk bp rs = Inr r"
  shows "length (dispatch (provider_configs bp) rs) = length rs
       \<and> (\<forall>i<length rs.
            dispatch (provider_configs bp) rs ! i
              = (i, provider_configs bp ! (i mod length (providers bp)), rs ! i))
       \<and> total_requests r = int (length rs)
       \<and> mset (metrics r)
           = mset (map (\<lambda>i. snd (run_request w (test_mode (hd (providers bp)))
                                 (i, provider_configs bp ! (i mod length (providers bp)), rs ! i)))
                     [0..<length rs])
       \<and> (\<forall>fin. mset (finished_metrics (w\<lparr>finish := fin\<rparr>) (test_mode (hd (providers bp)))
                          (provider_configs bp) rs)
                  = mset (metrics r))"
proof -
  note f = spec_batch_fields [OF assms]
  let ?tm = "test_mode (hd (providers bp))"
  let ?cfgs = "provider_configs bp"
  have len: "length ?cfgs = length (providers bp)"
    by (simp add: provider_configs_def)
  have a: "length (dispatch ?cfgs rs) = length rs"
    by (simp add: dispatch_def dispatch_from_length)
  have b: "\<forall>i<length rs. dispatch ?cfgs rs ! i
              = (i, ?cfgs ! (i mod length (providers bp)), rs ! i)"
    by (simp add: dispatch_def dispatch_from_nth len)
  have c: "mset (metrics r)
           = mset (map (\<lambda>i. snd (run_request w ?tm
                                 (i, ?cfgs ! (i mod length (providers bp)), rs ! i)))
                     [0..<length rs])"
    unfolding f(3) finished_mset dispatch_map len by (simp add: comp_def)
  have run_fin: "run_request (w\<lparr>finish := fin\<rparr>) tm ipr = run_request w tm ipr" for fin tm ipr
    by (cases ipr) simp
  have d: "\<forall>fin. mset (finished_metrics (w\<lparr>finish := fin\<rparr>) ?tm ?cfgs rs) = mset (metrics r)"
    unfolding f(3) finished_mset by (simp add: run_fin)
  from a b f(4) c d show ?thesis by blast
qed

theorem C1_round_robin_dispatch_witness:
  "length (dispatch (provider_configs ex_processor) ex_requests) = 3
   \<and> map (\<lambda>ipr. (fst ipr, fst (snd ipr))) (dispatch (provider_configs ex_processor) ex_requests)
       = [(0, provider_configs ex_processor ! 0), (1, provider_configs ex_processor ! 1),
          (2, provider_configs ex_processor ! 0)]
   \<and> total_requests ex_result = 3
   \<and> map provider_name (metrics ex_result)
       = [provider_key ex_a, provider_key ex_b, provider_key ex_a]"
  using C1_round_robin_dispatch [OF ex_run]
  by (simp add: ex_result_def ex_processor_def BatchProcessor_init_def provider_configs_def
      ex_requests_def dispatch_def provider_key_def format_optional_def ex_a_def ex_b_def)

text \<open>
  C3. In the result of a batch that passes the configuration check, the entries of
  \<open>provider_metrics\<close> add up to the overall aggregate in each of \<open>total_requests\<close>,
  \<open>total_tokens\<close>, \<open>prompt_tokens\<close>, \<open>completion_tokens\<close>, \<open>total_request_bytes\<close> and
  \<open>total_response_bytes\<close>.
\<close>

theorem C3_breakdown_sums_to_aggregate:
  assumes "process_batch (process_requests_multi w) clk bp rs = Inr r"
  shows "sum_list (map (\<lambda>kv. total_requests (snd kv)) (provider_metrics r)) = total_requests r
       \<and> sum_list (map (\<lambda>kv. total_tokens (snd kv)) (provider_metrics r)) = total_tokens r
       \<and> sum_list (map (\<lambda>kv. prompt_tokens (snd kv)) (provider_metrics r)) = prompt_tokens r
       \<and> sum_list (map (\<lambda>kv. completion_tokens (snd kv)) (provider_metrics r))
           = completion_tokens r
       \<and> sum_list (map (\<lambda>kv. total_request_bytes (snd kv)) (provider_metrics r))
           = total_request_bytes r
       \<and> sum_list (map (\<lambda>kv. total_response_bytes (snd kv)) (provider_metrics r))
           = total_response_bytes r"
proof -
  note f = spec_batch_fields [OF assms]
  have cover: "\<forall>m\<in>set (metrics r). provider_name m \<in> provider_key ` set (providers bp)"
    using spec_batch_metric(2) [OF assms] by blast
  have len: "int (length (metrics r)) = int (length rs)"
    using f(3) by (simp add: finished_length)
  have "sum_list (map (\<lambda>kv. total_requests (snd kv)) (provider_metrics r))
        = sum_list (map (\<lambda>_. 1) (metrics r))"
    using assms cover by (rule breakdown_sum) (simp add: sum_list_ones)
  then have a: "sum_list (map (\<lambda>kv. total_requests (snd kv)) (provider_metrics r))
        = total_requests r"
    using f(4) len by (simp add: sum_list_ones)
  have "sum_list (map (\<lambda>kv. total_tokens (snd kv)) (provider_metrics r))
        = sum_list (map (\<lambda>m. rm_prompt_tokens m + rm_completion_tokens m) (metrics r))"
    using assms cover by (rule breakdown_sum) simp
  then have b: "sum_list (map (\<lambda>kv. total_tokens (snd kv)) (provider_metrics r)) = total_tokens r"
    using f(5-7) by (simp add: sum_list_addf)
  have c: "sum_list (map (\<lambda>kv. prompt_tokens (snd kv)) (provider_metrics r)) = prompt_tokens r"
    unfolding f(5) using assms cover by (rule breakdown_sum) simp
  have d: "sum_list (map (\<lambda>kv. completion_tokens (snd kv)) (provider_metrics r))
        = completion_tokens r"
    unfolding f(6) using assms cover by (rule breakdown_sum) simp
  have e: "sum_list (map (\<lambda>kv. total_request_bytes (snd kv)) (provider_metrics r))
        = total_request_bytes r"
    unfolding f(8) using assms cover by (rule breakdown_sum) simp
  have g: "sum_list (map (\<lambda>kv. total_response_bytes (snd kv)) (provider_metrics r))
        = total_response_bytes r"
    unfolding f(9) using assms cover by (rule breakdown_sum) simp
  from a b c d e g show ?thesis by simp
qed

theorem C3_breakdown_sums_to_aggregate_witness:
  "sum_list (map (\<lambda>kv. total_requests (snd kv)) (provider_metrics ex_result)) = 3
   \<and> total_requests ex_result = 3
   \<and> sum_list (map (\<lambda>kv. total_tokens (snd kv)) (provider_metrics ex_result)) = 32
   \<and> total_tokens ex_result = 32
   \<and> sum_list (map (\<lambda>kv. total_request_bytes (snd kv)) (provider_metrics ex_result)) = 200
   \<and> total_request_bytes ex_result = 200"
  using C3_breakdown_sums_to_aggregate [OF ex_run]
  by (simp add: ex_result_def)

text \<open>
  C5. In the result of a batch, every metrics record, the overall aggregate and every
  per-provider aggregate have total tokens equal to prompt tokens plus completion tokens
  and no negative token or byte count. For the two kinds of aggregate the equation holds
  whatever the engine reports (\<open>process_batch_fields\<close>, \<open>provider_result_sel\<close>); the signs
  come from the records and increments of the engine.
\<close>

theorem C5_token_invariant:
  assumes "process_batch (process_requests_multi w) clk bp rs = Inr r"
  shows "(\<forall>m\<in>set (metrics r). metrics_invariant m)
       \<and> result_invariant r
       \<and> (\<forall>kv\<in>set (provider_metrics r).
            result_invariant (snd kv) \<and> (\<forall>m\<in>set (metrics (snd kv)). metrics_invariant m))"
proof -
  note f = spec_batch_fields [OF assms]
  have ms: "\<forall>m\<in>set (metrics r). metrics_invariant m"
    using spec_batch_metric(1) [OF assms] by blast
  from provider_result_invariant [OF ms, of 0]
  have "result_invariant (provider_result (metrics r) 0)" .
  then have overall: "result_invariant r"
    using f(5-9) by (simp add: result_invariant_def)
  have entries: "result_invariant (snd kv) \<and> (\<forall>m\<in>set (metrics (snd kv)). metrics_invariant m)"
    if "kv \<in> set (provider_metrics r)" for kv
  proof -
    from that have "(fst kv, snd kv) \<in> set (provider_metrics r)" by simp
    from breakdown_entry [OF assms this]
    have e: "snd kv = provider_result (metrics_of_key (metrics r) (fst kv)) (total_time (snd kv))"
      by simp
    have sub: "\<forall>m\<in>set (metrics_of_key (metrics r) (fst kv)). metrics_invariant m"
      using ms by (simp add: metrics_of_key_def)
    from provider_result_invariant [OF sub, of "total_time (snd kv)"] e sub
    show ?thesis by (metis provider_result_sel(6))
  qed
  from ms overall entries show ?thesis by blast
qed

theorem C5_token_invariant_witness:
  "metrics_invariant (metrics ex_result ! 0)
   \<and> metrics_invariant (metrics ex_result ! 1)
   \<and> result_invariant ex_result
   \<and> result_invariant (snd (provider_metrics ex_result ! 0))
   \<and> result_invariant (snd (provider_metrics ex_result ! 1))
   \<and> total_tokens ex_result = 32 \<and> prompt_tokens ex_result = 22
   \<and> completion_tokens ex_result = 10"
  using C5_token_invariant [OF ex_run]
  by (simp add: ex_result_def)

text \<open>
  C6. If the provider list is not empty, every provider name is known and the transport
  fails for every request, \<open>process_batch\<close> still returns a result: \<open>total_requests\<close> is
  the number of requests attempted, all token and byte sums are 0, and every entry of the
  per-provider mapping has token and byte sums 0. An entry's \<open>total_requests\<close> counts the
  failed attempts of its provider, so that the entries still add up to the overall count.
\<close>

theorem C6_all_requests_fail:
  assumes "providers bp \<noteq> []"
    and "\<forall>p\<in>set (providers bp). known_provider w (name p)"
    and "\<forall>i<length rs.
           isl (transport w (test_mode (hd (providers bp))) i
                  (provider_configs bp ! (i mod length (providers bp))) (rs ! i))"
  shows "\<exists>r. process_batch (process_requests_multi w) clk bp rs = Inr r
           \<and> total_requests r = int (length rs)
           \<and> total_tokens r = 0 \<and> prompt_tokens r = 0 \<and> completion_tokens r = 0
           \<and> total_request_bytes r = 0 \<and> total_response_bytes r = 0
           \<and> (\<forall>kv\<in>set (provider_metrics r).
                total_tokens (snd kv) = 0 \<and> prompt_tokens (snd kv) = 0
                \<and> completion_tokens (snd kv) = 0
                \<and> total_request_bytes (snd kv) = 0 \<and> total_response_bytes (snd kv) = 0)"
proof -
  from spec_batch_returns [OF assms(1,2)] obtain r where
    run: "process_batch (process_requests_multi w) clk bp rs = Inr r" by blast
  note f = spec_batch_fields [OF run]
  let ?tm = "test_mode (hd (providers bp))"
  have len: "length (provider_configs bp) = length (providers bp)"
    by (simp add: provider_configs_def)
  have zero: "rm_prompt_tokens m = 0 \<and> rm_completion_tokens m = 0
              \<and> request_bytes m = 0 \<and> response_bytes m = 0"
    if "m \<in> set (metrics r)" for m
  proof -
    from that f(3) obtain i where i: "i < length rs"
      and m: "m = snd (run_request w ?tm
                 (i, provider_configs bp ! (i mod length (providers bp)), rs ! i))"
      by (auto simp: finished_set dispatch_map len)
    from assms(3) i
    have "isl (transport w ?tm i (provider_configs bp ! (i mod length (providers bp))) (rs ! i))"
      by blast
    from failed_run_zero [OF this] show ?thesis unfolding m by simp
  qed
  have p: "prompt_tokens r = 0" unfolding f(5) using zero by (intro sum_list_zero) blast
  have c: "completion_tokens r = 0" unfolding f(6) using zero by (intro sum_list_zero) blast
  have q: "total_request_bytes r = 0" unfolding f(8) using zero by (intro sum_list_zero) blast
  have s: "total_response_bytes r = 0" unfolding f(9) using zero by (intro sum_list_zero) blast
  have t: "total_tokens r = 0" using f(7) p c by simp
  have entries: "total_tokens (snd kv) = 0 \<and> prompt_tokens (snd kv) = 0
                \<and> completion_tokens (snd kv) = 0
                \<and> total_request_bytes (snd kv) = 0 \<and> total_response_bytes (snd kv) = 0"
    if "kv \<in> set (provider_metrics r)" for kv
  proof -
    let ?pm = "metrics_of_key (metrics r) (fst kv)"
    from that have "(fst kv, snd kv) \<in> set (provider_metrics r)" by simp
    from breakdown_entry [OF run this]
    have e: "snd kv = provider_result ?pm (total_time (snd kv))" by simp
    have z: "rm_prompt_tokens m = 0 \<and> rm_completion_tokens m = 0
              \<and> request_bytes m = 0 \<and> response_bytes m = 0" if "m \<in> set ?pm" for m
      using that zero by (simp add: metrics_of_key_def)
    have "total_tokens (provider_result ?pm (total_time (snd kv))) = 0"
      using z by (simp add: sum_list_zero)
    moreover have "prompt_tokens (provider_result ?pm (total_time (snd kv))) = 0"
      using z by (simp add: sum_list_zero)
    moreover have "completion_tokens (provider_result ?pm (total_time (snd kv))) = 0"
      using z by (simp add: sum_list_zero)
    moreover have "total_request_bytes (provider_result ?pm (total_time (snd kv))) = 0"
      using z by (simp add: sum_list_zero)
    moreover have "total_response_bytes (provider_result ?pm (total_time (snd kv))) = 0"
      using z by (simp add: sum_list_zero)
    ultimately show ?thesis using e by metis
  qed
  from run f(4) t p c q s entries show ?thesis by blast
qed

theorem C6_all_requests_fail_witness:
  "\<exists>r. process_batch (process_requests_multi ex_world_down) ex_clock ex_processor ex_requests
          = Inr r
       \<and> total_requests r = 3
       \<and> total_tokens r = 0 \<and> prompt_tokens r = 0 \<and> completion_tokens r = 0
       \<and> total_request_bytes r = 0 \<and> total_response_bytes r = 0"
  using C6_all_requests_fail [of ex_processor ex_world_down ex_requests ex_clock]
  by (auto simp: ex_processor_def BatchProcessor_init_def ex_world_down_def ex_a_def ex_b_def
      ex_requests_def)

end
